theory Spec2Isabelle
  imports Main "HOL-Library.Word" "HOL-Library.Multiset"
begin

unbundle bit_operations_syntax

section \<open>Shared data of the firmware (src/src/main.cpp)\<close>

text \<open>
  A colour is FastLED's \<open>CRGB\<close>: three 8-bit channels, here the triple (r, g, b).
  \<open>time_t\<close> values are integers; the values the firmware adds to them are a 32-bit
  \<open>int\<close> and an 8-bit interval, so the sums never leave a 64-bit \<open>time_t\<close> and
  \<open>int\<close> carries them exactly. Block numbers are \<open>uint16_t\<close> values, read as
  natural numbers.
\<close>

type_synonym CRGB = "8 word \<times> 8 word \<times> 8 word"

definition black :: CRGB where
  "black = (0, 0, 0)"

text \<open>The scheduled LED update, \<open>struct LedUpdate\<close>.\<close>

record LedUpdate =
  preBlock :: nat
  postBlock :: nat
  colorId :: int
  timestamp :: int

text \<open>What the firmware prints on the serial port, one constructor per message.\<close>

datatype diag =
    BlockOutOfRange nat
  | FetchedSameDataTwice
  | BackendVersionMismatch string
  | JsonParseError
  | AllServersFailed

text \<open>
  The globals of main.cpp that the renderers, the parser and the main loop touch;
  \<open>statusLedNotification\<close> is the notification value of the status LED task, which
  \<open>xTaskNotify\<close> overwrites (\<open>eSetValueWithOverwrite\<close>). \<open>leds1\<close> has
  \<open>LED_1_PIXELS\<close> elements and \<open>leds2\<close> has \<open>LED_2_PIXELS\<close>; both constants come from
  a board file, so the model reads them off the arrays: \<open>LED_1_PIXELS = length leds1\<close>.
  A board without \<open>LED_2_PIN\<close> is the case \<open>leds2 = []\<close>, where the second range
  test of \<open>setBlockColorRGB\<close> can never hold.
\<close>

record Globals =
  leds1 :: "CRGB list"
  leds2 :: "CRGB list"
  colorTable :: "CRGB list"
  ledUpdateSchedule :: "LedUpdate list"
  nextFetchTime :: int
  updateInterval :: "8 word"
  fetchOffset :: "8 word"
  lastMapDrawTime :: int
  statusLedNotification :: "32 word option"
  serial :: "diag list"

text \<open>
  A read or write outside an array is undefined behaviour in C++; the model makes it the
  result \<open>Inl OutOfBounds\<close>.
\<close>

datatype fault = OutOfBounds

section \<open>Writing blocks to the strands\<close>

text \<open>
  The lambda \<open>gammaCorrect\<close> computes \<open>uint8_t(pow(value / 255.0f, 2.0) * 255.0f)\<close>,
  the truncation of \<open>value\<^sup>2 / 255\<close>. For a channel value other than 0 and 255 the exact
  quotient is at least 1/255 away from every integer, far more than the rounding error of
  the floating-point evaluation, and at 0 and 255 the evaluation is exact; so the result
  is the integer quotient.
\<close>

definition gammaCorrect :: "8 word \<Rightarrow> 8 word" where
  "gammaCorrect v = word_of_nat (unat v * unat v div 255)"

definition gammaRGB :: "CRGB \<Rightarrow> CRGB" where
  "gammaRGB c = (case c of (r, g, b) \<Rightarrow> (gammaCorrect r, gammaCorrect g, gammaCorrect b))"

definition setBlockColorRGB :: "nat \<Rightarrow> CRGB \<Rightarrow> Globals \<Rightarrow> Globals" where
  "setBlockColorRGB block color s =
     (let color' = gammaRGB color in
      if 100 \<le> block \<and> block < 100 + length (leds1 s)
        then s\<lparr>leds1 := (leds1 s)[block - 100 := color']\<rparr>
      else if 300 \<le> block \<and> block < 300 + length (leds2 s)
        then s\<lparr>leds2 := (leds2 s)[block - 300 := color']\<rparr>
      else if block \<noteq> 0
        then s\<lparr>serial := serial s @ [BlockOutOfRange block]\<rparr>
      else s)"

text \<open>
  \<open>setBlockColorId\<close> indexes the caller's \<open>uint8_t blockColorIds[512]\<close> with the block
  number, without a range test. The comparison is between \<open>int\<close>s (the array element is
  promoted); the store converts the \<open>int\<close> colour id to \<open>uint8_t\<close>, keeping its low
  eight bits.
\<close>

definition lookupColor :: "CRGB list \<Rightarrow> int \<Rightarrow> CRGB" where
  "lookupColor table c =
     (if 0 \<le> c \<and> c < int (length table) then table ! nat c else black)"

definition setBlockColorId ::
  "nat \<Rightarrow> int \<Rightarrow> 8 word list \<times> Globals \<Rightarrow> fault + (8 word list \<times> Globals)" where
  "setBlockColorId block cid st =
     (case st of (blockColorIds, s) \<Rightarrow>
        if length blockColorIds \<le> block then Inl OutOfBounds
        else if cid < uint (blockColorIds ! block) then Inr (blockColorIds, s)
        else Inr (blockColorIds[block := word_of_int cid],
                  setBlockColorRGB block (lookupColor (colorTable s) cid) s))"

definition clearLEDs :: "Globals \<Rightarrow> Globals" where
  "clearLEDs s =
     s\<lparr>leds2 := replicate (length (leds2 s)) black,
       leds1 := replicate (length (leds1 s)) black\<rparr>"

section \<open>The realtime renderer\<close>

definition targetBlock :: "int \<Rightarrow> LedUpdate \<Rightarrow> nat" where
  "targetBlock epoch u = (if epoch \<ge> timestamp u then postBlock u else preBlock u)"

text \<open>The range-for loop of \<open>drawRealtimeMap\<close> over \<open>ledUpdateSchedule\<close>.\<close>

fun drawUpdates ::
  "int \<Rightarrow> LedUpdate list \<Rightarrow> 8 word list \<times> Globals \<Rightarrow> fault + (8 word list \<times> Globals)" where
  "drawUpdates epoch [] st = Inr st"
| "drawUpdates epoch (u # us) st =
     (case (if epoch \<ge> timestamp u
            then setBlockColorId (postBlock u) (colorId u) st
            else setBlockColorId (preBlock u) (colorId u) st) of
        Inl e \<Rightarrow> Inl e
      | Inr st' \<Rightarrow> drawUpdates epoch us st')"

text \<open>
  \<open>drawRealtimeMap\<close>: clear both strands, start from 512 zero priorities, fold the
  schedule. Suspending and resuming the dithering task around it has no effect on the
  values computed.
\<close>

definition drawRealtimeMap :: "int \<Rightarrow> Globals \<Rightarrow> fault + Globals" where
  "drawRealtimeMap epoch s =
     (case drawUpdates epoch (ledUpdateSchedule s) (replicate 512 0, clearLEDs s) of
        Inl e \<Rightarrow> Inl e
      | Inr (blockColorIds, s') \<Rightarrow> Inr s')"

text \<open>The pixel that shows a block, if the block lies in a strand's range.\<close>

definition blockPixel :: "Globals \<Rightarrow> nat \<Rightarrow> CRGB option" where
  "blockPixel s block =
     (if 100 \<le> block \<and> block < 100 + length (leds1 s) then Some (leds1 s ! (block - 100))
      else if 300 \<le> block \<and> block < 300 + length (leds2 s) then Some (leds2 s ! (block - 300))
      else None)"

subsection \<open>What one block sees of a run of the loop\<close>

text \<open>
  \<open>hits\<close> lists, in schedule order, the colour ids of the events that resolve to block
  \<open>B\<close>. For a block with priority \<open>p\<close> and pixel \<open>px\<close> before the loop,
  \<open>prioAfter\<close> and \<open>pixelAfter\<close> give its priority and pixel after it.
\<close>

definition hits :: "int \<Rightarrow> LedUpdate list \<Rightarrow> nat \<Rightarrow> int list" where
  "hits epoch evs B = map colorId (filter (\<lambda>u. targetBlock epoch u = B) evs)"

lemma gammaRGB_black: "gammaRGB black = black"
  by (simp add: gammaRGB_def black_def gammaCorrect_def)

lemma setBlockColorRGB_frame:
  "length (leds1 (setBlockColorRGB b c s)) = length (leds1 s)"
  "length (leds2 (setBlockColorRGB b c s)) = length (leds2 s)"
  "colorTable (setBlockColorRGB b c s) = colorTable s"
  by (simp_all add: setBlockColorRGB_def Let_def)

lemma Max_Cons_ge:
  fixes c :: int
  assumes "h \<noteq> []"
  shows "Max (insert c (set h)) = (if \<exists>x\<in>set h. c \<le> x then Max (set h) else c)"
proof -
  have "Max (insert c (set h)) = max c (Max (set h))"
    using assms by simp
  moreover have "(\<exists>x\<in>set h. c \<le> x) \<longleftrightarrow> c \<le> Max (set h)"
    using assms by (simp add: Max_ge_iff)
  ultimately show ?thesis by (auto simp: max_def)
qed

lemma uint_colorId:
  "0 \<le> c \<Longrightarrow> c < 256 \<Longrightarrow> uint (word_of_int c :: 8 word) = c"
  by (simp add: uint_word_of_int)

lemma hits_Cons:
  "hits epoch (u # us) B =
     (if targetBlock epoch u = B then colorId u # hits epoch us B else hits epoch us B)"
  by (simp add: hits_def)

lemma blockPixel_setBlockColorRGB:
  "blockPixel (setBlockColorRGB b c s) B =
     (if B = b \<and> blockPixel s B \<noteq> None then Some (gammaRGB c) else blockPixel s B)"
proof -
  consider (one) "100 \<le> b \<and> b < 100 + length (leds1 s)"
    | (two) "\<not> (100 \<le> b \<and> b < 100 + length (leds1 s))" "300 \<le> b \<and> b < 300 + length (leds2 s)"
    | (none) "\<not> (100 \<le> b \<and> b < 100 + length (leds1 s))" "\<not> (300 \<le> b \<and> b < 300 + length (leds2 s))"
    by blast
  then show ?thesis
  proof cases
    case one
    then have s': "setBlockColorRGB b c s = s\<lparr>leds1 := (leds1 s)[b - 100 := gammaRGB c]\<rparr>"
      by (simp add: setBlockColorRGB_def)
    show ?thesis
    proof (cases "B = b")
      case True
      from one have "b - 100 < length (leds1 s)" by arith
      with one True show ?thesis by (simp add: s' blockPixel_def)
    next
      case False
      have "100 \<le> B \<Longrightarrow> b - 100 \<noteq> B - 100" using one False by arith
      then have "100 \<le> B \<Longrightarrow> (leds1 s)[b - 100 := gammaRGB c] ! (B - 100) = leds1 s ! (B - 100)"
        by (simp add: nth_list_update_neq)
      with False show ?thesis by (simp add: s' blockPixel_def)
    qed
  next
    case two
    then have s': "setBlockColorRGB b c s = s\<lparr>leds2 := (leds2 s)[b - 300 := gammaRGB c]\<rparr>"
      by (simp add: setBlockColorRGB_def)
    show ?thesis
    proof (cases "B = b")
      case True
      from two have "b - 300 < length (leds2 s)" by arith
      with two True show ?thesis by (simp add: s' blockPixel_def)
    next
      case False
      have "300 \<le> B \<Longrightarrow> b - 300 \<noteq> B - 300" using two False by arith
      then have "300 \<le> B \<Longrightarrow> (leds2 s)[b - 300 := gammaRGB c] ! (B - 300) = leds2 s ! (B - 300)"
        by (simp add: nth_list_update_neq)
      with False show ?thesis by (simp add: s' blockPixel_def)
    qed
  next
    case none
    then have "blockPixel (setBlockColorRGB b c s) B = blockPixel s B"
      by (simp add: setBlockColorRGB_def blockPixel_def Let_def cong: conj_cong)
    moreover from none have "blockPixel s b = None"
      by (simp add: blockPixel_def)
    ultimately show ?thesis by simp
  qed
qed

definition prioAfter :: "int \<Rightarrow> int list \<Rightarrow> int" where
  "prioAfter p h = Max (insert p (set h))"

definition pixelAfter :: "CRGB list \<Rightarrow> int \<Rightarrow> int list \<Rightarrow> CRGB option \<Rightarrow> CRGB option" where
  "pixelAfter table p h px =
     (if px = None then None
      else if \<exists>c\<in>set h. p \<le> c then Some (gammaRGB (lookupColor table (Max (set h))))
      else px)"

lemma prioAfter_Nil: "prioAfter p [] = p"
  by (simp add: prioAfter_def)

lemma prioAfter_skip: "c < p \<Longrightarrow> prioAfter p (c # h) = prioAfter p h"
  by (cases "h = []") (simp_all add: prioAfter_def insert_commute max_def)

lemma prioAfter_commit: "p \<le> c \<Longrightarrow> prioAfter p (c # h) = prioAfter c h"
  by (cases "h = []") (simp_all add: prioAfter_def insert_commute max_def)

lemma pixelAfter_Nil: "pixelAfter table p [] px = px"
  by (simp add: pixelAfter_def)

lemma pixelAfter_skip:
  assumes "c < p"
  shows "pixelAfter table p (c # h) px = pixelAfter table p h px"
proof (cases "h = []")
  case True
  with assms show ?thesis by (simp add: pixelAfter_def)
next
  case False
  with assms show ?thesis
    by (auto simp: pixelAfter_def Max_Cons_ge simp del: Max_insert)
qed

lemma pixelAfter_commit:
  assumes "p \<le> c" "px \<noteq> None"
  shows "pixelAfter table p (c # h) px =
         pixelAfter table c h (Some (gammaRGB (lookupColor table c)))"
proof (cases "h = []")
  case True
  with assms show ?thesis by (simp add: pixelAfter_def)
next
  case False
  with assms show ?thesis
    by (auto simp: pixelAfter_def Max_Cons_ge simp del: Max_insert)
qed

lemma pixelAfter_None: "pixelAfter table p h None = None"
  by (simp add: pixelAfter_def)

lemma drawUpdates_Cons:
  "drawUpdates epoch (u # us) st =
     (case setBlockColorId (targetBlock epoch u) (colorId u) st of
        Inl e \<Rightarrow> Inl e
      | Inr st' \<Rightarrow> drawUpdates epoch us st')"
  by (simp add: targetBlock_def)

definition drawn ::
  "int \<Rightarrow> LedUpdate list \<Rightarrow> 8 word list \<Rightarrow> Globals \<Rightarrow> 8 word list \<Rightarrow> Globals \<Rightarrow> bool" where
  "drawn epoch evs ids s ids' s' \<longleftrightarrow>
     length ids' = length ids \<and> length (leds1 s') = length (leds1 s) \<and>
     length (leds2 s') = length (leds2 s) \<and> colorTable s' = colorTable s \<and>
     (\<forall>B<length ids. uint (ids' ! B) = prioAfter (uint (ids ! B)) (hits epoch evs B)) \<and>
     (\<forall>B. blockPixel s' B =
        pixelAfter (colorTable s) (uint (ids ! B)) (hits epoch evs B) (blockPixel s B))"

lemma drawUpdates_blocks:
  assumes "\<forall>u\<in>set evs. targetBlock epoch u < length ids \<and> colorId u < 256"
  shows "\<exists>ids' s'. drawUpdates epoch evs (ids, s) = Inr (ids', s') \<and> drawn epoch evs ids s ids' s'"
  using assms
proof (induction evs arbitrary: ids s)
  case Nil
  show ?case
    by (simp add: drawn_def hits_def prioAfter_Nil pixelAfter_Nil)
next
  case (Cons u us)
  define t where "t = targetBlock epoch u"
  define c where "c = colorId u"
  define p where "p = uint (ids ! t)"
  from Cons.prems have t: "t < length ids" and c: "c < 256"
    and rest: "\<forall>u\<in>set us. targetBlock epoch u < length ids \<and> colorId u < 256"
    by (simp_all add: t_def c_def)
  have hitsT: "hits epoch (u # us) t = c # hits epoch us t"
    by (simp add: hits_Cons t_def c_def)
  have hitsO: "\<And>B. B \<noteq> t \<Longrightarrow> hits epoch (u # us) B = hits epoch us B"
    by (simp add: hits_Cons t_def)
  show ?case
  proof (cases "c < p")
    case True
    then have step: "setBlockColorId t c (ids, s) = Inr (ids, s)"
      using t by (simp add: setBlockColorId_def p_def)
    from Cons.IH [OF rest, of s] obtain ids' s' where
      run: "drawUpdates epoch us (ids, s) = Inr (ids', s')" and d: "drawn epoch us ids s ids' s'"
      by blast
    have "drawUpdates epoch (u # us) (ids, s) = Inr (ids', s')"
      by (simp only: drawUpdates_Cons t_def [symmetric] c_def [symmetric] step run sum.case)
    moreover have "drawn epoch (u # us) ids s ids' s'"
      unfolding drawn_def
    proof (intro conjI allI impI)
      fix B assume "B < length ids"
      with d True show "uint (ids' ! B) = prioAfter (uint (ids ! B)) (hits epoch (u # us) B)"
        by (cases "B = t") (simp_all add: drawn_def hitsT hitsO prioAfter_skip p_def)
    next
      fix B
      from d True show "blockPixel s' B =
        pixelAfter (colorTable s) (uint (ids ! B)) (hits epoch (u # us) B) (blockPixel s B)"
        by (cases "B = t") (simp_all add: drawn_def hitsT hitsO pixelAfter_skip p_def)
    qed (use d in \<open>simp_all add: drawn_def\<close>)
    ultimately show ?thesis by blast
  next
    case False
    define ids1 where "ids1 = ids[t := word_of_int c]"
    define s1 where "s1 = setBlockColorRGB t (lookupColor (colorTable s) c) s"
    have p0: "0 \<le> p" by (simp add: p_def)
    with False have pc: "p \<le> c" and c0: "0 \<le> c" by simp_all
    from False have step: "setBlockColorId t c (ids, s) = Inr (ids1, s1)"
      using t by (simp add: setBlockColorId_def p_def ids1_def s1_def)
    have len1: "length ids1 = length ids" by (simp add: ids1_def)
    from rest have rest1: "\<forall>u\<in>set us. targetBlock epoch u < length ids1 \<and> colorId u < 256"
      by (simp add: len1)
    from Cons.IH [OF rest1, of s1] obtain ids' s' where
      run: "drawUpdates epoch us (ids1, s1) = Inr (ids', s')" and d: "drawn epoch us ids1 s1 ids' s'"
      by blast
    have ids1T: "uint (ids1 ! t) = c"
      using t c c0 by (simp add: ids1_def uint_colorId)
    have ids1O: "\<And>B. B \<noteq> t \<Longrightarrow> ids1 ! B = ids ! B"
      by (simp add: ids1_def)
    have px1: "\<And>B. blockPixel s1 B =
      (if B = t \<and> blockPixel s B \<noteq> None then Some (gammaRGB (lookupColor (colorTable s) c))
       else blockPixel s B)"
      by (simp add: s1_def blockPixel_setBlockColorRGB)
    have tab1: "colorTable s1 = colorTable s"
      by (simp add: s1_def setBlockColorRGB_frame)
    have "drawUpdates epoch (u # us) (ids, s) = Inr (ids', s')"
      by (simp only: drawUpdates_Cons t_def [symmetric] c_def [symmetric] step run sum.case)
    moreover have "drawn epoch (u # us) ids s ids' s'"
      unfolding drawn_def
    proof (intro conjI allI impI)
      fix B assume B: "B < length ids"
      show "uint (ids' ! B) = prioAfter (uint (ids ! B)) (hits epoch (u # us) B)"
      proof (cases "B = t")
        case True
        with d B pc show ?thesis
          by (simp add: drawn_def len1 hitsT ids1T prioAfter_commit p_def [symmetric])
      next
        case False
        with d B show ?thesis
          by (simp add: drawn_def len1 hitsO ids1O)
      qed
    next
      fix B
      show "blockPixel s' B =
        pixelAfter (colorTable s) (uint (ids ! B)) (hits epoch (u # us) B) (blockPixel s B)"
      proof (cases "B = t")
        case True
        show ?thesis
        proof (cases "blockPixel s t = None")
          case True
          with d \<open>B = t\<close> show ?thesis
            by (simp add: drawn_def px1 tab1 pixelAfter_None)
        next
          case False
          with d \<open>B = t\<close> pc show ?thesis
            by (simp add: drawn_def px1 tab1 hitsT ids1T pixelAfter_commit p_def [symmetric])
        qed
      next
        case False
        with d show ?thesis
          by (simp add: drawn_def px1 tab1 hitsO ids1O)
      qed
    qed (use d in \<open>simp_all add: drawn_def len1 s1_def setBlockColorRGB_frame\<close>)
    ultimately show ?thesis by blast
  qed
qed

text \<open>
  The specification's reading of the renderer: a block shows the colour-table entry
  (black outside the table) of the largest colour id among the events that resolve to
  it, passed through the gamma curve like every write to a strand, and stays black when
  no event resolves to it.
\<close>

definition expectedPixel :: "CRGB list \<Rightarrow> int \<Rightarrow> LedUpdate list \<Rightarrow> nat \<Rightarrow> CRGB" where
  "expectedPixel table epoch evs B =
     (let ids = map colorId (filter (\<lambda>u. targetBlock epoch u = B) evs) in
      if ids = [] then black else gammaRGB (lookupColor table (Max (set ids))))"

lemma nth_replicate_offset:
  assumes "k \<le> B" "B < k + n"
  shows "replicate n x ! (B - k) = x"
proof -
  from assms have "B - k < n" by arith
  then show ?thesis by simp
qed

lemma blockPixel_clearLEDs:
  "blockPixel (clearLEDs s) B = (if blockPixel s B = None then None else Some black)"
  by (simp add: blockPixel_def clearLEDs_def nth_replicate_offset)

lemma pixelAfter_cleared:
  "pixelAfter table 0 (hits epoch evs B) (Some black) = Some (expectedPixel table epoch evs B)"
proof (cases "hits epoch evs B = []")
  case True
  then show ?thesis by (simp add: pixelAfter_def expectedPixel_def hits_def)
next
  case False
  show ?thesis
  proof (cases "\<exists>c\<in>set (hits epoch evs B). 0 \<le> c")
    case True
    with False show ?thesis by (simp add: pixelAfter_def expectedPixel_def hits_def)
  next
    case neg: False
    with False have "Max (set (hits epoch evs B)) < 0"
      by (simp add: Max_less_iff not_le)
    then have "lookupColor table (Max (set (hits epoch evs B))) = black"
      by (simp add: lookupColor_def)
    with False neg show ?thesis
      by (simp add: pixelAfter_def expectedPixel_def hits_def [symmetric] gammaRGB_black Let_def)
  qed
qed

lemma drawRealtimeMap_pixels:
  assumes "\<forall>u\<in>set (ledUpdateSchedule s). targetBlock epoch u < 512 \<and> colorId u < 256"
  shows "\<exists>s'. drawRealtimeMap epoch s = Inr s' \<and>
           (\<forall>B. blockPixel s' B =
              (if blockPixel s B = None then None
               else Some (expectedPixel (colorTable s) epoch (ledUpdateSchedule s) B)))"
proof -
  from assms have
    "\<forall>u\<in>set (ledUpdateSchedule s).
       targetBlock epoch u < length (replicate 512 (0 :: 8 word)) \<and> colorId u < 256"
    by simp
  from drawUpdates_blocks [OF this, of "clearLEDs s"] obtain ids' s' where
    run: "drawUpdates epoch (ledUpdateSchedule s) (replicate 512 0, clearLEDs s) = Inr (ids', s')"
    and d: "drawn epoch (ledUpdateSchedule s) (replicate 512 0) (clearLEDs s) ids' s'"
    by blast
  have tab: "colorTable (clearLEDs s) = colorTable s"
    by (simp add: clearLEDs_def)
  have "blockPixel s' B =
          (if blockPixel s B = None then None
           else Some (expectedPixel (colorTable s) epoch (ledUpdateSchedule s) B))" for B
  proof (cases "B < 512")
    case True
    then have "uint (replicate 512 (0 :: 8 word) ! B) = 0" by simp
    with d show ?thesis
      by (simp add: drawn_def tab blockPixel_clearLEDs pixelAfter_None pixelAfter_cleared)
  next
    case False
    with assms have "hits epoch (ledUpdateSchedule s) B = []"
      by (auto simp: hits_def filter_empty_conv)
    with d show ?thesis
      by (simp add: drawn_def tab blockPixel_clearLEDs pixelAfter_Nil expectedPixel_def
            hits_def [symmetric])
  qed
  with run show ?thesis by (simp add: drawRealtimeMap_def)
qed

lemma expectedPixel_perm:
  assumes "mset evs' = mset evs"
  shows "expectedPixel table epoch evs' B = expectedPixel table epoch evs B"
proof -
  from assms have "set evs' = set evs" by (rule mset_eq_setD)
  then have "set (map colorId (filter (\<lambda>u. targetBlock epoch u = B) evs')) =
             set (map colorId (filter (\<lambda>u. targetBlock epoch u = B) evs))"
    by simp
  moreover from this have "map colorId (filter (\<lambda>u. targetBlock epoch u = B) evs') = [] \<longleftrightarrow>
             map colorId (filter (\<lambda>u. targetBlock epoch u = B) evs) = []"
    by (metis set_empty)
  ultimately show ?thesis by (simp add: expectedPixel_def Let_def)
qed

subsection \<open>Concrete schedules\<close>

definition c1_events :: "LedUpdate list" where
  "c1_events =
     [\<lparr>preBlock = 150, postBlock = 151, colorId = 256, timestamp = 0\<rparr>,
      \<lparr>preBlock = 150, postBlock = 151, colorId = 1, timestamp = 0\<rparr>]"

definition c1_state :: "LedUpdate list \<Rightarrow> Globals" where
  "c1_state evs =
     \<lparr>leds1 = replicate 60 black, leds2 = [], colorTable = [(10, 20, 30), (255, 128, 0)],
      ledUpdateSchedule = evs, nextFetchTime = 0, updateInterval = 30, fetchOffset = 0,
      lastMapDrawTime = 0, statusLedNotification = None, serial = []\<rparr>"

definition c1_ok_events :: "LedUpdate list" where
  "c1_ok_events =
     [\<lparr>preBlock = 150, postBlock = 151, colorId = 1, timestamp = 0\<rparr>,
      \<lparr>preBlock = 151, postBlock = 152, colorId = 0, timestamp = 9\<rparr>]"

lemma blockPixel_ledUpdateSchedule:
  "blockPixel (s\<lparr>ledUpdateSchedule := evs\<rparr>) B = blockPixel s B"
  by (simp add: blockPixel_def)

text \<open>
  The order in which a block's events commit, \<open>setBlockColorId\<close>'s rule: an event whose
  colour id is below the recorded priority changes nothing; every other event, an equal
  id included, records its id and writes its colour.
\<close>

lemma setBlockColorId_commit_rule:
  assumes "block < length ids"
  shows "setBlockColorId block cid (ids, s) =
           (if uint (ids ! block) \<le> cid
            then Inr (ids[block := word_of_int cid],
                      setBlockColorRGB block (lookupColor (colorTable s) cid) s)
            else Inr (ids, s))"
  using assms by (simp add: setBlockColorId_def not_le)

text \<open>
  What the renderer guarantees. For every schedule whose events resolve (at \<open>epoch\<close>) to
  blocks below 512 and carry colour ids below 256 (negative ids included), and for every
  reordering \<open>evs'\<close> of that schedule: \<open>drawRealtimeMap\<close> returns, every block that has
  a pixel shows the gamma-corrected colour-table entry of the largest colour id among the
  events resolving to it (black when the id is outside the table, black when no event
  resolves to it), and the reordered schedule gives every block the same pixel.
\<close>

lemma realtime_block_shows_max_colorId:
  assumes "list_all (\<lambda>u. targetBlock epoch u < 512 \<and> colorId u < 256) (ledUpdateSchedule s)"
    and "mset evs' = mset (ledUpdateSchedule s)"
  shows "\<exists>s' s''.
      drawRealtimeMap epoch s = Inr s' \<and>
      drawRealtimeMap epoch (s\<lparr>ledUpdateSchedule := evs'\<rparr>) = Inr s'' \<and>
      (\<forall>B. blockPixel s' B =
         (if blockPixel s B = None then None
          else Some (expectedPixel (colorTable s) epoch (ledUpdateSchedule s) B))) \<and>
      (\<forall>B. blockPixel s'' B = blockPixel s' B)"
proof -
  from assms(1) have a: "\<forall>u\<in>set (ledUpdateSchedule s). targetBlock epoch u < 512 \<and> colorId u < 256"
    by (simp add: list_all_iff)
  from assms(2) have "set evs' = set (ledUpdateSchedule s)" by (rule mset_eq_setD)
  with a have b: "\<forall>u\<in>set (ledUpdateSchedule (s\<lparr>ledUpdateSchedule := evs'\<rparr>)).
      targetBlock epoch u < 512 \<and> colorId u < 256"
    by simp
  from drawRealtimeMap_pixels [OF a] obtain s' where
    s': "drawRealtimeMap epoch s = Inr s'"
      "\<And>B. blockPixel s' B =
         (if blockPixel s B = None then None
          else Some (expectedPixel (colorTable s) epoch (ledUpdateSchedule s) B))"
    by blast
  from drawRealtimeMap_pixels [OF b] obtain s'' where
    s'': "drawRealtimeMap epoch (s\<lparr>ledUpdateSchedule := evs'\<rparr>) = Inr s''"
      "\<And>B. blockPixel s'' B =
         (if blockPixel (s\<lparr>ledUpdateSchedule := evs'\<rparr>) B = None then None
          else Some (expectedPixel (colorTable (s\<lparr>ledUpdateSchedule := evs'\<rparr>)) epoch
                 (ledUpdateSchedule (s\<lparr>ledUpdateSchedule := evs'\<rparr>)) B))"
    by blast
  have "blockPixel s'' B = blockPixel s' B" for B
    by (simp add: s'(2) s''(2) expectedPixel_perm [OF assms(2)] blockPixel_ledUpdateSchedule)
  with s' s''(1) show ?thesis by blast
qed

lemma c1_ok_hyp:
  "list_all (\<lambda>u. targetBlock 5 u < 512 \<and> colorId u < 256) (ledUpdateSchedule (c1_state c1_ok_events))"
  by (simp add: c1_state_def c1_ok_events_def targetBlock_def)

lemma realtime_block_shows_max_colorId_example:
  "list_all (\<lambda>u. targetBlock 5 u < 512 \<and> colorId u < 256)
     (ledUpdateSchedule (c1_state c1_ok_events)) \<and>
   mset (rev c1_ok_events) = mset (ledUpdateSchedule (c1_state c1_ok_events)) \<and>
   (\<exists>s' s''.
      drawRealtimeMap 5 (c1_state c1_ok_events) = Inr s' \<and>
      drawRealtimeMap 5 (c1_state c1_ok_events\<lparr>ledUpdateSchedule := rev c1_ok_events\<rparr>) = Inr s'' \<and>
      blockPixel s' 151 = Some (255, 64, 0) \<and> blockPixel s'' 151 = Some (255, 64, 0) \<and>
      blockPixel s' 150 = Some black)"
proof -
  have m: "mset (rev c1_ok_events) = mset (ledUpdateSchedule (c1_state c1_ok_events))"
    by (simp add: c1_state_def)
  have e151: "expectedPixel (colorTable (c1_state c1_ok_events)) 5
      (ledUpdateSchedule (c1_state c1_ok_events)) 151 = (255, 64, 0)"
    by (simp add: expectedPixel_def c1_state_def c1_ok_events_def targetBlock_def lookupColor_def
          gammaRGB_def gammaCorrect_def)
  have e150: "expectedPixel (colorTable (c1_state c1_ok_events)) 5
      (ledUpdateSchedule (c1_state c1_ok_events)) 150 = black"
    by (simp add: expectedPixel_def c1_state_def c1_ok_events_def targetBlock_def)
  have p: "blockPixel (c1_state c1_ok_events) 151 \<noteq> None" "blockPixel (c1_state c1_ok_events) 150 \<noteq> None"
    by (simp_all add: blockPixel_def c1_state_def)
  from realtime_block_shows_max_colorId [OF c1_ok_hyp m] obtain s' s'' where
    "drawRealtimeMap 5 (c1_state c1_ok_events) = Inr s'"
    "drawRealtimeMap 5 (c1_state c1_ok_events\<lparr>ledUpdateSchedule := rev c1_ok_events\<rparr>) = Inr s''"
    "\<And>B. blockPixel s' B =
         (if blockPixel (c1_state c1_ok_events) B = None then None
          else Some (expectedPixel (colorTable (c1_state c1_ok_events)) 5
                 (ledUpdateSchedule (c1_state c1_ok_events)) B))"
    "\<And>B. blockPixel s'' B = blockPixel s' B"
    by blast
  with e151 e150 p c1_ok_hyp m show ?thesis by simp
qed

text \<open>
  Claim C1 at a colour id of 256. The claim asks for the colour of the largest colour id
  on a block, whatever the order of the events. \<open>colorId\<close> is an \<open>int\<close> from the payload
  to the parameter of \<open>setBlockColorId\<close>, but the store into \<open>uint8_t blockColorIds[]\<close>
  keeps only its low eight bits: after the event with id 256 the recorded priority is 0,
  and the later event with id 1, a lower priority, commits. Block 151 then shows entry 1
  of the table where the largest id, 256, lies outside the table and gives black; the
  same two events in the other order leave the block black.
\<close>

theorem realtime_colorId_256_loses_priority:
  "(case drawRealtimeMap 5 (c1_state c1_events) of Inl e \<Rightarrow> None | Inr s' \<Rightarrow> blockPixel s' 151)
     = Some (255, 64, 0) \<and>
   expectedPixel (colorTable (c1_state c1_events)) 5 c1_events 151 = black \<and>
   (case drawRealtimeMap 5 (c1_state (rev c1_events)) of Inl e \<Rightarrow> None | Inr s' \<Rightarrow> blockPixel s' 151)
     = Some black"
  by (simp add: c1_state_def c1_events_def drawRealtimeMap_def clearLEDs_def setBlockColorId_def
        setBlockColorRGB_def lookupColor_def blockPixel_def gammaRGB_def gammaCorrect_def black_def
        expectedPixel_def targetBlock_def)

section \<open>Build constants\<close>

text \<open>
  Constants that a board file or the build defines (\<open>WIFI_LED_PIN\<close>, \<open>SERVER_LED_PIN\<close>,
  \<open>BACKEND_VERSION\<close>, and \<open>pdMS_TO_TICKS(DEBOUNCE_MS)\<close> as \<open>DEBOUNCE_TICKS\<close>).
\<close>

record Board =
  WIFI_LED_PIN :: "8 word"
  SERVER_LED_PIN :: "8 word"
  BACKEND_VERSION :: string
  DEBOUNCE_TICKS :: "32 word"

section \<open>Accepting a schedule payload\<close>

text \<open>
  What \<open>parseLEDMap\<close> reads out of the JSON document, after ArduinoJson's conversions:
  \<open>doc["timestamp"] | 0\<close> is an \<open>int\<close>; \<open>doc["update"] | updateInterval\<close> is the member
  when it converts to \<open>uint8_t\<close> (\<open>Some\<close>) and the old interval otherwise (\<open>None\<close>);
  the colours come in insertion order; each entry of \<open>updates\<close> gives two \<open>uint16_t\<close>
  blocks, an \<open>int\<close> colour id and an \<open>int\<close> offset.
\<close>

record JsonUpdate =
  upd_b0 :: nat
  upd_b1 :: nat
  upd_c :: int
  upd_t :: int

record Payload =
  json_version :: string
  json_timestamp :: int
  json_update :: "8 word option"
  json_colors :: "CRGB list"
  json_updates :: "JsonUpdate list"

text \<open>The downloaded text: one that \<open>deserializeJson\<close> rejects, or a document.\<close>

datatype JsonText = Malformed | Document Payload

definition toLedUpdate :: "int \<Rightarrow> JsonUpdate \<Rightarrow> LedUpdate" where
  "toLedUpdate baseTimestamp update =
     \<lparr>preBlock = upd_b0 update, postBlock = upd_b1 update, colorId = upd_c update,
      timestamp = (if upd_t update > 0 then baseTimestamp + upd_t update else 0)\<rparr>"

definition parseLEDMap :: "Board \<Rightarrow> JsonText \<Rightarrow> Globals \<Rightarrow> int \<times> Globals" where
  "parseLEDMap board downloadedJson s =
     (case downloadedJson of
        Malformed \<Rightarrow> (0, s\<lparr>serial := serial s @ [JsonParseError]\<rparr>)
      | Document doc \<Rightarrow>
          let baseTimestamp = json_timestamp doc;
              s1 = s\<lparr>updateInterval :=
                      (case json_update doc of Some u \<Rightarrow> u | None \<Rightarrow> updateInterval s)\<rparr>
          in if baseTimestamp + uint (updateInterval s1) > nextFetchTime s1
             then
               let s2 = s1\<lparr>nextFetchTime := baseTimestamp + uint (updateInterval s1)\<rparr>;
                   s3 = (if BACKEND_VERSION board \<noteq> json_version doc
                         then s2\<lparr>serial := serial s2 @ [BackendVersionMismatch (json_version doc)]\<rparr>
                         else s2);
                   s4 = s3\<lparr>colorTable := json_colors doc\<rparr>;
                   s5 = s4\<lparr>ledUpdateSchedule := map (toLedUpdate baseTimestamp) (json_updates doc)\<rparr>
               in (baseTimestamp, s5)
             else (baseTimestamp, s1\<lparr>serial := serial s1 @ [FetchedSameDataTwice]\<rparr>))"

subsection \<open>A stale payload\<close>

definition c2_state :: Globals where
  "c2_state =
     \<lparr>leds1 = replicate 60 black, leds2 = [], colorTable = [(10, 20, 30)],
      ledUpdateSchedule = [\<lparr>preBlock = 150, postBlock = 151, colorId = 0, timestamp = 990\<rparr>],
      nextFetchTime = 1000, updateInterval = 30, fetchOffset = 0,
      lastMapDrawTime = 0, statusLedNotification = None, serial = []\<rparr>"

definition c2_payload :: "8 word \<Rightarrow> Payload" where
  "c2_payload u =
     \<lparr>json_version = ''v1'', json_timestamp = 900, json_update = Some u,
      json_colors = [(1, 2, 3)], json_updates = []\<rparr>"

definition c2_board :: Board where
  "c2_board = \<lparr>WIFI_LED_PIN = 5, SERVER_LED_PIN = 6, BACKEND_VERSION = ''v1'', DEBOUNCE_TICKS = 50\<rparr>"

text \<open>
  The interval in force once \<open>updateInterval = doc["update"] | updateInterval\<close> has run:
  the payload's, or else the old one.
\<close>

definition effectiveInterval :: "Payload \<Rightarrow> Globals \<Rightarrow> 8 word" where
  "effectiveInterval doc s = (case json_update doc of Some u \<Rightarrow> u | None \<Rightarrow> updateInterval s)"

text \<open>
  Claim C2, as amended. For every document whose timestamp plus the interval in force does
  not exceed \<open>nextFetchTime\<close>, \<open>parseLEDMap\<close> returns the document's own timestamp and
  leaves \<open>colorTable\<close>, \<open>ledUpdateSchedule\<close>, \<open>nextFetchTime\<close>, both strands and every
  other global as they were, except that \<open>updateInterval\<close> has taken the document's
  interval and the serial port has received "Fetched the same data twice".
\<close>

theorem stale_payload_rejected:
  assumes "json_timestamp doc + uint (effectiveInterval doc s) \<le> nextFetchTime s"
  shows "parseLEDMap board (Document doc) s =
           (json_timestamp doc,
            s\<lparr>updateInterval := effectiveInterval doc s,
              serial := serial s @ [FetchedSameDataTwice]\<rparr>)"
  using assms by (simp add: parseLEDMap_def effectiveInterval_def Let_def not_less)

theorem stale_payload_rejected_witness:
  "json_timestamp (c2_payload 60) + uint (effectiveInterval (c2_payload 60) c2_state)
     \<le> nextFetchTime c2_state \<and>
   parseLEDMap c2_board (Document (c2_payload 60)) c2_state =
     (900, c2_state\<lparr>updateInterval := 60, serial := [FetchedSameDataTwice]\<rparr>)"
proof -
  have h: "json_timestamp (c2_payload 60) + uint (effectiveInterval (c2_payload 60) c2_state)
     \<le> nextFetchTime c2_state"
    by (simp add: c2_payload_def c2_state_def effectiveInterval_def)
  have "effectiveInterval (c2_payload 60) c2_state = 60" "json_timestamp (c2_payload 60) = 900"
    "serial c2_state = []"
    by (simp_all add: c2_payload_def c2_state_def effectiveInterval_def)
  with h stale_payload_rejected [OF h, of c2_board] show ?thesis by simp
qed

text \<open>
  The claim as stated fails for the bookkeeping field \<open>updateInterval\<close>: it is assigned
  before the acceptance test. A rejected payload with interval 60 turns the stored
  interval 30 into 60.
\<close>

theorem stale_payload_no_mutation_counterexample:
  "json_timestamp (c2_payload 60) + uint (the (json_update (c2_payload 60))) \<le> nextFetchTime c2_state \<and>
   updateInterval c2_state = 30 \<and>
   updateInterval (snd (parseLEDMap c2_board (Document (c2_payload 60)) c2_state)) = 60"
  by (simp add: parseLEDMap_def c2_payload_def c2_state_def Let_def)

section \<open>The status LEDs\<close>

text \<open>
  \<open>enum statusLedCommand\<close>, carried as its number: the task casts a byte of the
  notification back to the enum and compares numbers.
\<close>

type_synonym statusLedCommand = "8 word"

definition LED_OFF :: statusLedCommand where "LED_OFF = 0"
definition LED_ON_GREEN :: statusLedCommand where "LED_ON_GREEN = 1"
definition LED_ON_RED :: statusLedCommand where "LED_ON_RED = 2"
definition LED_BLINK_GREEN_SLOW :: statusLedCommand where "LED_BLINK_GREEN_SLOW = 3"
definition LED_BLINK_GREEN_FAST :: statusLedCommand where "LED_BLINK_GREEN_FAST = 4"
definition LED_BLINK_RED_SLOW :: statusLedCommand where "LED_BLINK_RED_SLOW = 5"
definition LED_BLINK_RED_FAST :: statusLedCommand where "LED_BLINK_RED_FAST = 6"

text \<open>
  \<open>setStatusLedState\<close> packs two (pin, command) pairs into the 32-bit notification value
  \<open>(pin1 << 24) | (cmd1 << 16) | (pin2 << 8) | cmd2\<close> and overwrites the task's pending
  value with it.
\<close>

definition packStatus ::
  "8 word \<Rightarrow> statusLedCommand \<Rightarrow> 8 word \<Rightarrow> statusLedCommand \<Rightarrow> 32 word" where
  "packStatus pin1 cmd1 pin2 cmd2 =
     push_bit 24 (ucast pin1) OR push_bit 16 (ucast cmd1) OR push_bit 8 (ucast pin2) OR ucast cmd2"

definition setStatusLedState ::
  "8 word \<Rightarrow> statusLedCommand \<Rightarrow> 8 word \<Rightarrow> statusLedCommand \<Rightarrow> Globals \<Rightarrow> Globals" where
  "setStatusLedState pin1 cmd1 pin2 cmd2 s =
     s\<lparr>statusLedNotification := Some (packStatus pin1 cmd1 pin2 cmd2)\<rparr>"

text \<open>
  The task's side. A pin is driven high (green), driven low (red) or left as an input
  (off); \<open>setCharlieplexedLED\<close> does nothing for any other command.
\<close>

datatype PinDrive = DriveHigh | DriveLow | HighImpedance

record statusLed =
  led_pin :: "8 word"
  led_command :: statusLedCommand
  led_currentState :: bool
  led_lastToggle :: "32 word"

type_synonym pins = "8 word \<rightharpoonup> PinDrive"

definition setCharlieplexedLED :: "8 word \<Rightarrow> statusLedCommand \<Rightarrow> pins \<Rightarrow> pins" where
  "setCharlieplexedLED pin state ps =
     (if state = LED_ON_GREEN then ps(pin \<mapsto> DriveHigh)
      else if state = LED_ON_RED then ps(pin \<mapsto> DriveLow)
      else if state = LED_OFF then ps(pin \<mapsto> HighImpedance)
      else ps)"

text \<open>
  The two fields that iteration \<open>cmdIdx\<close> of the decoding loop extracts; the loop runs
  for \<open>cmdIdx\<close> 0 and 1, where the shift counts are 24 and 16, then 8 and 0.
\<close>

definition decodeCommand :: "32 word \<Rightarrow> nat \<Rightarrow> 8 word \<times> statusLedCommand" where
  "decodeCommand notification cmdIdx =
     (ucast (drop_bit (24 - cmdIdx * 16) notification AND 0xFF),
      ucast (drop_bit (16 - cmdIdx * 16) notification AND 0xFF))"

text \<open>The inner loop over \<open>leds\<close>: the first LED on the pin takes the command.\<close>

fun applyCommand ::
  "8 word \<Rightarrow> statusLedCommand \<Rightarrow> statusLed list \<Rightarrow> pins \<Rightarrow> statusLed list \<times> pins" where
  "applyCommand pin cmd [] ps = ([], ps)"
| "applyCommand pin cmd (l # ls) ps =
     (if led_pin l = pin
      then (l\<lparr>led_command := cmd\<rparr> # ls,
            if cmd = LED_ON_GREEN \<or> cmd = LED_ON_RED \<or> cmd = LED_OFF
            then setCharlieplexedLED pin cmd ps else ps)
      else (case applyCommand pin cmd ls ps of (ls', ps') \<Rightarrow> (l # ls', ps')))"

definition processCommand ::
  "32 word \<Rightarrow> nat \<Rightarrow> statusLed list \<times> pins \<Rightarrow> statusLed list \<times> pins" where
  "processCommand notification cmdIdx st =
     (case decodeCommand notification cmdIdx of (pin, cmd) \<Rightarrow>
        if pin = 0 then st
        else applyCommand pin cmd (fst st) (snd st))"

definition processNotification ::
  "32 word \<Rightarrow> statusLed list \<times> pins \<Rightarrow> statusLed list \<times> pins" where
  "processNotification notification st =
     processCommand notification 1 (processCommand notification 0 st)"

text \<open>The blink handling of one LED at tick \<open>now\<close> (\<open>millis()\<close>, unsigned 32-bit).\<close>

definition blinkLed :: "32 word \<Rightarrow> statusLed \<Rightarrow> pins \<Rightarrow> statusLed \<times> pins" where
  "blinkLed now l ps =
     (if led_command l \<ge> LED_BLINK_GREEN_SLOW then
        let isGreen = (led_command l = LED_BLINK_GREEN_SLOW \<or> led_command l = LED_BLINK_GREEN_FAST);
            isRed = (led_command l = LED_BLINK_RED_SLOW \<or> led_command l = LED_BLINK_RED_FAST);
            isSlow = (led_command l = LED_BLINK_GREEN_SLOW \<or> led_command l = LED_BLINK_RED_SLOW)
        in if isGreen \<or> isRed then
             let interval = (if isSlow then 500 else 100 :: 32 word);
                 color = (if isGreen then LED_ON_GREEN else LED_ON_RED)
             in if now - led_lastToggle l \<ge> interval
                then (l\<lparr>led_currentState := \<not> led_currentState l, led_lastToggle := now\<rparr>,
                      setCharlieplexedLED (led_pin l)
                        (if \<not> led_currentState l then color else LED_OFF) ps)
                else (l, ps)
           else (l, ps)
      else (l, ps))"

fun blinkAll :: "32 word \<Rightarrow> statusLed list \<Rightarrow> pins \<Rightarrow> statusLed list \<times> pins" where
  "blinkAll now [] ps = ([], ps)"
| "blinkAll now (l # ls) ps =
     (case blinkLed now l ps of (l', ps') \<Rightarrow>
        case blinkAll now ls ps' of (ls', ps'') \<Rightarrow> (l' # ls', ps''))"

text \<open>
  One pass of the task's \<open>while (1)\<close> body: \<open>pending\<close> is the notification value that
  \<open>xTaskNotifyWait\<close> hands over, if one is pending.
\<close>

definition statusLedManagerTask ::
  "32 word option \<Rightarrow> 32 word \<Rightarrow> statusLed list \<times> pins \<Rightarrow> statusLed list \<times> pins" where
  "statusLedManagerTask pending now st =
     (let st' = (case pending of None \<Rightarrow> st | Some notification \<Rightarrow> processNotification notification st)
      in blinkAll now (fst st') (snd st'))"

lemma mask_FF: "(0xFF :: 32 word) = mask 8"
  by (simp add: mask_eq_exp_minus_1)

lemma unpack_pin1: "ucast (drop_bit 24 (packStatus p1 c1 p2 c2) AND 0xFF) = p1"
  unfolding packStatus_def mask_FF
  by (rule bit_word_eqI) (auto simp: bit_simps dest: bit_imp_le_length)

lemma unpack_cmd1: "ucast (drop_bit 16 (packStatus p1 c1 p2 c2) AND 0xFF) = c1"
  unfolding packStatus_def mask_FF
  by (rule bit_word_eqI) (auto simp: bit_simps dest: bit_imp_le_length)

lemma unpack_pin2: "ucast (drop_bit 8 (packStatus p1 c1 p2 c2) AND 0xFF) = p2"
  unfolding packStatus_def mask_FF
  by (rule bit_word_eqI) (auto simp: bit_simps dest: bit_imp_le_length)

lemma unpack_cmd2: "ucast (packStatus p1 c1 p2 c2 AND 0xFF) = c2"
  unfolding packStatus_def mask_FF
  by (rule bit_word_eqI) (auto simp: bit_simps dest: bit_imp_le_length)

definition c9_leds :: "statusLed list" where
  "c9_leds =
     [\<lparr>led_pin = 5, led_command = LED_OFF, led_currentState = False, led_lastToggle = 0\<rparr>,
      \<lparr>led_pin = 6, led_command = LED_OFF, led_currentState = False, led_lastToggle = 0\<rparr>]"

text \<open>
  Claim C9. Packing two (pin, command) pairs of 8-bit fields and decoding iteration 0 and
  iteration 1 of the task's loop gives back the four fields; and a decoded pin of 0 makes
  the iteration leave the LEDs and the pins untouched.
\<close>

theorem status_word_round_trip:
  "decodeCommand (packStatus pin1 cmd1 pin2 cmd2) 0 = (pin1, cmd1) \<and>
   decodeCommand (packStatus pin1 cmd1 pin2 cmd2) 1 = (pin2, cmd2) \<and>
   (fst (decodeCommand notification cmdIdx) = 0 \<longrightarrow>
      processCommand notification cmdIdx (leds, ps) = (leds, ps))"
proof (intro conjI impI)
  show "decodeCommand (packStatus pin1 cmd1 pin2 cmd2) 0 = (pin1, cmd1)"
    by (simp add: decodeCommand_def unpack_pin1 unpack_cmd1)
  show "decodeCommand (packStatus pin1 cmd1 pin2 cmd2) 1 = (pin2, cmd2)"
    using unpack_pin2 [of pin1 cmd1 pin2 cmd2] unpack_cmd2 [of pin1 cmd1 pin2 cmd2]
    by (simp add: decodeCommand_def)
next
  assume "fst (decodeCommand notification cmdIdx) = 0"
  then show "processCommand notification cmdIdx (leds, ps) = (leds, ps)"
    by (cases "decodeCommand notification cmdIdx") (simp add: processCommand_def)
qed

theorem status_word_round_trip_witness:
  "fst (decodeCommand (packStatus 5 LED_ON_GREEN 0 LED_OFF) 1) = 0 \<and>
   decodeCommand (packStatus 5 LED_ON_GREEN 6 LED_BLINK_RED_SLOW) 0 = (5, LED_ON_GREEN) \<and>
   decodeCommand (packStatus 5 LED_ON_GREEN 6 LED_BLINK_RED_SLOW) 1 = (6, LED_BLINK_RED_SLOW) \<and>
   processCommand (packStatus 5 LED_ON_GREEN 0 LED_OFF) 1 (c9_leds, Map.empty) = (c9_leds, Map.empty)"
proof -
  have z: "fst (decodeCommand (packStatus 5 LED_ON_GREEN 0 LED_OFF) 1) = 0"
    using status_word_round_trip [of 5 LED_ON_GREEN 0 LED_OFF] by simp
  from z status_word_round_trip [of 5 LED_ON_GREEN 6 LED_BLINK_RED_SLOW
      "packStatus 5 LED_ON_GREEN 0 LED_OFF" 1 c9_leds Map.empty]
  show ?thesis by simp
qed

section \<open>The main loop in realtime mode\<close>

text \<open>
  What one pass of \<open>loop()\<close> reads from outside: \<open>time(nullptr)\<close>, whether WiFi is
  connected, \<open>millis()\<close>, and what \<open>downloadJSON()\<close> returns if it is called (\<open>None\<close> for
  the empty string).
\<close>

record LoopInput =
  in_epoch :: int
  in_wiFiConnected :: bool
  in_millis :: "32 word"
  in_downloaded :: "JsonText option"

text \<open>Arduino's macro \<open>constrain(amt, low, high)\<close>.\<close>

definition constrain :: "int \<Rightarrow> int \<Rightarrow> int \<Rightarrow> int" where
  "constrain amt low high = (if amt < low then low else if amt > high then high else amt)"

text \<open>The body of the periodic fetch, run when its condition holds.\<close>

definition fetchNewData :: "Board \<Rightarrow> LoopInput \<Rightarrow> Globals \<Rightarrow> Globals" where
  "fetchNewData board inp s =
     (let epoch = in_epoch inp;
          s1 = (if epoch > nextFetchTime s + uint (updateInterval s)
                then setStatusLedState (WIFI_LED_PIN board) LED_ON_GREEN
                       (SERVER_LED_PIN board) LED_BLINK_GREEN_FAST s
                else s);
          s2 = (case in_downloaded inp of
                  Some downloadedJson \<Rightarrow>
                    snd (parseLEDMap board downloadedJson
                      (setStatusLedState (WIFI_LED_PIN board) LED_ON_GREEN
                         (SERVER_LED_PIN board) LED_ON_GREEN s1))
                | None \<Rightarrow>
                    setStatusLedState (WIFI_LED_PIN board) LED_ON_GREEN
                      (SERVER_LED_PIN board) LED_ON_RED
                      (s1\<lparr>serial := serial s1 @ [AllServersFailed]\<rparr>))
      in s2\<lparr>nextFetchTime :=
              constrain (nextFetchTime s2) (epoch + 6) (epoch + uint (updateInterval s2))\<rparr>)"

text \<open>
  The \<open>REALTIME\<close> case of the switch in \<open>loop()\<close>. The calls around it
  (\<open>manageWiFiConnection\<close>, \<open>brightness.update\<close>, the delay) and the status line printed
  after a fetch touch none of the globals above and are left out.
\<close>

definition loopRealtime :: "Board \<Rightarrow> LoopInput \<Rightarrow> Globals \<Rightarrow> fault + Globals" where
  "loopRealtime board inp s =
     (let epoch = in_epoch inp in
      if in_wiFiConnected inp then
        let s1 = (if epoch > nextFetchTime s \<and> unat (in_millis inp) mod 1000 > unat (fetchOffset s)
                  then fetchNewData board inp s else s)
        in if lastMapDrawTime s1 < epoch
           then (case drawRealtimeMap epoch s1 of
                   Inl e \<Rightarrow> Inl e
                 | Inr s2 \<Rightarrow> Inr (s2\<lparr>lastMapDrawTime := epoch\<rparr>))
           else Inr s1
      else if in_millis inp < 60 * 1000
        then Inr (setStatusLedState (WIFI_LED_PIN board) LED_BLINK_GREEN_FAST
                    (SERVER_LED_PIN board) LED_OFF s)
        else Inr (setStatusLedState (WIFI_LED_PIN board) LED_ON_RED
                    (SERVER_LED_PIN board) LED_OFF s))"

lemma parseLEDMap_nextFetchTime:
  "nextFetchTime s \<le> nextFetchTime (snd (parseLEDMap board json s))"
  by (cases json) (simp_all add: parseLEDMap_def Let_def)

lemma setBlockColorRGB_nextFetchTime:
  "nextFetchTime (setBlockColorRGB b c s) = nextFetchTime s"
  by (simp add: setBlockColorRGB_def Let_def)

lemma setBlockColorId_nextFetchTime:
  "setBlockColorId b c (ids, s) = Inr (ids', s') \<Longrightarrow> nextFetchTime s' = nextFetchTime s"
  by (auto simp: setBlockColorId_def setBlockColorRGB_nextFetchTime split: if_splits)

lemma drawUpdates_nextFetchTime:
  "drawUpdates epoch evs (ids, s) = Inr (ids', s') \<Longrightarrow> nextFetchTime s' = nextFetchTime s"
proof (induction evs arbitrary: ids s)
  case Nil
  then show ?case by simp
next
  case (Cons u us)
  from Cons.prems obtain ids1 s1 where
    step: "setBlockColorId (targetBlock epoch u) (colorId u) (ids, s) = Inr (ids1, s1)"
    and run: "drawUpdates epoch us (ids1, s1) = Inr (ids', s')"
    by (auto simp only: drawUpdates_Cons split: sum.splits)
  from Cons.IH [OF run] setBlockColorId_nextFetchTime [OF step] show ?case by simp
qed

lemma drawRealtimeMap_nextFetchTime:
  assumes "drawRealtimeMap epoch s = Inr s'"
  shows "nextFetchTime s' = nextFetchTime s"
proof -
  from assms obtain ids' where
    "drawUpdates epoch (ledUpdateSchedule s) (replicate 512 0, clearLEDs s) = Inr (ids', s')"
    by (auto simp: drawRealtimeMap_def split: sum.splits)
  then have "nextFetchTime s' = nextFetchTime (clearLEDs s)"
    by (rule drawUpdates_nextFetchTime)
  then show ?thesis by (simp add: clearLEDs_def)
qed

lemma constrain_lower:
  "a < e \<Longrightarrow> a \<le> n \<Longrightarrow> 0 \<le> z \<Longrightarrow> a \<le> constrain n (e + 6) (e + z)"
  by (simp add: constrain_def)

lemma fetchNewData_nextFetchTime:
  assumes "nextFetchTime s < in_epoch inp"
  shows "nextFetchTime s \<le> nextFetchTime (fetchNewData board inp s)"
proof -
  define s1 where "s1 = (if in_epoch inp > nextFetchTime s + uint (updateInterval s)
                then setStatusLedState (WIFI_LED_PIN board) LED_ON_GREEN
                       (SERVER_LED_PIN board) LED_BLINK_GREEN_FAST s
                else s)"
  define s2 where "s2 = (case in_downloaded inp of
                  Some downloadedJson \<Rightarrow>
                    snd (parseLEDMap board downloadedJson
                      (setStatusLedState (WIFI_LED_PIN board) LED_ON_GREEN
                         (SERVER_LED_PIN board) LED_ON_GREEN s1))
                | None \<Rightarrow>
                    setStatusLedState (WIFI_LED_PIN board) LED_ON_GREEN
                      (SERVER_LED_PIN board) LED_ON_RED
                      (s1\<lparr>serial := serial s1 @ [AllServersFailed]\<rparr>))"
  have n1: "nextFetchTime s1 = nextFetchTime s"
    by (simp add: s1_def setStatusLedState_def)
  have n2: "nextFetchTime s \<le> nextFetchTime s2"
  proof (cases "in_downloaded inp")
    case None
    then show ?thesis by (simp add: s2_def setStatusLedState_def n1)
  next
    case (Some json)
    have "nextFetchTime (setStatusLedState (WIFI_LED_PIN board) LED_ON_GREEN
                         (SERVER_LED_PIN board) LED_ON_GREEN s1) = nextFetchTime s"
      by (simp add: setStatusLedState_def n1)
    with parseLEDMap_nextFetchTime [of "setStatusLedState (WIFI_LED_PIN board) LED_ON_GREEN
                         (SERVER_LED_PIN board) LED_ON_GREEN s1" board json]
    show ?thesis by (simp add: s2_def Some)
  qed
  have "fetchNewData board inp s = s2\<lparr>nextFetchTime :=
      constrain (nextFetchTime s2) (in_epoch inp + 6) (in_epoch inp + uint (updateInterval s2))\<rparr>"
    by (simp only: fetchNewData_def Let_def s1_def s2_def)
  moreover have "nextFetchTime s \<le>
      constrain (nextFetchTime s2) (in_epoch inp + 6) (in_epoch inp + uint (updateInterval s2))"
    using assms n2 by (rule constrain_lower) simp
  ultimately show ?thesis by simp
qed

definition c3_state :: Globals where
  "c3_state =
     \<lparr>leds1 = replicate 60 black, leds2 = [], colorTable = [],
      ledUpdateSchedule = [], nextFetchTime = 900, updateInterval = 30, fetchOffset = 0,
      lastMapDrawTime = 0, statusLedNotification = None, serial = []\<rparr>"

definition c3_payload :: "int \<Rightarrow> Payload" where
  "c3_payload ts =
     \<lparr>json_version = ''v1'', json_timestamp = ts, json_update = Some 30,
      json_colors = [], json_updates = []\<rparr>"

definition c3_input :: "int \<Rightarrow> int \<Rightarrow> LoopInput" where
  "c3_input epoch ts =
     \<lparr>in_epoch = epoch, in_wiFiConnected = True, in_millis = 1,
      in_downloaded = Some (Document (c3_payload ts))\<rparr>"

definition c3_state1 :: Globals where
  "c3_state1 =
     c3_state\<lparr>nextFetchTime := 1030, lastMapDrawTime := 1000,
       statusLedNotification := Some (packStatus 5 LED_ON_GREEN 6 LED_ON_GREEN)\<rparr>"

lemma c3_first_pass: "loopRealtime c2_board (c3_input 1000 1010) c3_state = Inr c3_state1"
  by (simp add: loopRealtime_def fetchNewData_def parseLEDMap_def setStatusLedState_def
        drawRealtimeMap_def clearLEDs_def constrain_def c3_input_def c3_payload_def c3_state_def
        c3_state1_def c2_board_def Let_def)

text \<open>
  Claim C3, as amended. Every call of \<open>parseLEDMap\<close> and every completed pass of the
  loop in realtime mode leaves \<open>nextFetchTime\<close> at least as large as it found it.
\<close>

theorem nextFetchTime_nondecreasing_per_step:
  assumes "loopRealtime board inp s = Inr s'"
  shows "nextFetchTime s \<le> nextFetchTime s' \<and>
         nextFetchTime s \<le> nextFetchTime (snd (parseLEDMap board json s))"
proof
  show "nextFetchTime s \<le> nextFetchTime (snd (parseLEDMap board json s))"
    by (rule parseLEDMap_nextFetchTime)
next
  show "nextFetchTime s \<le> nextFetchTime s'"
  proof (cases "in_wiFiConnected inp")
    case False
    with assms show ?thesis
      by (auto simp: loopRealtime_def setStatusLedState_def split: if_splits)
  next
    case True
    define s1 where "s1 = (if in_epoch inp > nextFetchTime s \<and>
        unat (in_millis inp) mod 1000 > unat (fetchOffset s) then fetchNewData board inp s else s)"
    have le1: "nextFetchTime s \<le> nextFetchTime s1"
      by (simp add: s1_def fetchNewData_nextFetchTime)
    from assms have run:
      "(if lastMapDrawTime s1 < in_epoch inp
        then (case drawRealtimeMap (in_epoch inp) s1 of
                Inl e \<Rightarrow> Inl e
              | Inr s2 \<Rightarrow> Inr (s2\<lparr>lastMapDrawTime := in_epoch inp\<rparr>))
        else Inr s1) = Inr s'"
      unfolding loopRealtime_def Let_def s1_def [symmetric] using True by simp
    have "nextFetchTime s' = nextFetchTime s1"
    proof (cases "lastMapDrawTime s1 < in_epoch inp")
      case False
      with run show ?thesis by simp
    next
      case True
      with run obtain s2 where "drawRealtimeMap (in_epoch inp) s1 = Inr s2"
        and "s' = s2\<lparr>lastMapDrawTime := in_epoch inp\<rparr>"
        by (auto split: sum.splits)
      then show ?thesis by (simp add: drawRealtimeMap_nextFetchTime)
    qed
    with le1 show ?thesis by simp
  qed
qed

theorem nextFetchTime_nondecreasing_per_step_witness:
  "loopRealtime c2_board (c3_input 1000 1010) c3_state = Inr c3_state1 \<and>
   nextFetchTime c3_state \<le> nextFetchTime c3_state1 \<and>
   nextFetchTime c3_state \<le> nextFetchTime (snd (parseLEDMap c2_board Malformed c3_state))"
  using nextFetchTime_nondecreasing_per_step [OF c3_first_pass, of Malformed] c3_first_pass
  by simp

text \<open>
  The claim as stated fails inside a pass: the clamp that follows a submission lowers the
  value the submission has just stored. With the device clock at 1000 and a payload
  stamped 1010, the submission stores 1040 and the clamp brings it down to 1030; in the
  next pass a payload stamped 1005 is accepted and stores 1035, below the 1040 stored
  before.
\<close>

theorem nextFetchTime_monotone_counterexample:
  "nextFetchTime (snd (parseLEDMap c2_board (Document (c3_payload 1010)) c3_state)) = 1040 \<and>
   loopRealtime c2_board (c3_input 1000 1010) c3_state = Inr c3_state1 \<and>
   nextFetchTime c3_state1 = 1030 \<and>
   nextFetchTime (snd (parseLEDMap c2_board (Document (c3_payload 1005)) c3_state1)) = 1035"
  by (simp add: c3_first_pass)
     (simp add: parseLEDMap_def c3_payload_def c3_state_def c3_state1_def Let_def)

section \<open>Blocks outside the strands\<close>

definition c6_state :: Globals where
  "c6_state =
     \<lparr>leds1 = replicate 60 black, leds2 = replicate 40 black, colorTable = [(10, 20, 30)],
      ledUpdateSchedule = [\<lparr>preBlock = 600, postBlock = 600, colorId = 0, timestamp = 0\<rparr>],
      nextFetchTime = 0, updateInterval = 30, fetchOffset = 0,
      lastMapDrawTime = 0, statusLedNotification = None, serial = []\<rparr>"

text \<open>
  Claim C6 at block 600. \<open>setBlockColorRGB\<close> alone reports a block outside both strands
  and leaves the strands alone, but the realtime renderer first indexes its 512-entry
  priority array with the block: for an event on block 600 the render ends in an access
  outside the array.
\<close>

theorem realtime_block_600_out_of_bounds:
  "drawRealtimeMap 5 c6_state = Inl OutOfBounds"
  by (simp add: drawRealtimeMap_def c6_state_def setBlockColorId_def)

lemma setBlockColorRGB_out_of_range:
  assumes "\<not> (100 \<le> block \<and> block < 100 + length (leds1 s))"
    and "\<not> (300 \<le> block \<and> block < 300 + length (leds2 s))"
  shows "setBlockColorRGB block color s =
           (if block \<noteq> 0 then s\<lparr>serial := serial s @ [BlockOutOfRange block]\<rparr> else s)"
  using assms by (simp add: setBlockColorRGB_def Let_def cong: conj_cong)

section \<open>The timetable (src/include/timetable.h)\<close>

text \<open>
  \<open>struct TimetableEntry\<close> holds two \<open>int16_t\<close>; \<open>sint\<close> reads them as the signed
  values they are. A route is what its three virtual getters return. Start times and
  the clock are \<open>uint32_t\<close>.
\<close>

record TimetableEntry =
  offsetSeconds :: "16 word"
  blockNumber :: "16 word"

record TrainRoute =
  getEntries :: "TimetableEntry list"
  getColor :: CRGB
  getStartTimes :: "32 word list"

record TrainInstance =
  route :: TrainRoute
  startTimeSeconds :: "32 word"

text \<open>
  The loop of \<open>TrainRoute::getCurrentBlock\<close>, \<open>for (int i = size - 1; i >= 0; --i)\<close>:
  \<open>scanEntries entries n elapsed\<close> is the loop with \<open>n\<close> entries still to visit, the next
  one at index \<open>n - 1\<close>; \<open>None\<close> when it runs off the front.
\<close>

fun scanEntries :: "TimetableEntry list \<Rightarrow> nat \<Rightarrow> int \<Rightarrow> 16 word option" where
  "scanEntries entries 0 elapsedSeconds = None"
| "scanEntries entries (Suc i) elapsedSeconds =
     (if sint (offsetSeconds (entries ! i)) \<le> elapsedSeconds
      then Some (blockNumber (entries ! i))
      else scanEntries entries i elapsedSeconds)"

text \<open>The result is a \<open>uint16_t\<close>: the entry's 16 bits read as unsigned.\<close>

definition TrainRoute_getCurrentBlock :: "TrainRoute \<Rightarrow> int \<Rightarrow> nat" where
  "TrainRoute_getCurrentBlock r elapsedSeconds =
     (let entries = getEntries r in
      if entries = [] then 0
      else case scanEntries entries (length entries) elapsedSeconds of
             Some block \<Rightarrow> unat block
           | None \<Rightarrow> unat (blockNumber (entries ! 0)))"

text \<open>
  Both methods of \<open>TrainInstance\<close> compute the elapsed time the same way: unsigned 32-bit
  arithmetic, then a cast to \<open>int32_t\<close>.
\<close>

definition elapsedSeconds :: "32 word \<Rightarrow> 32 word \<Rightarrow> int" where
  "elapsedSeconds startTime currentSecondsSinceMidnight =
     (if currentSecondsSinceMidnight \<ge> startTime
      then sint (currentSecondsSinceMidnight - startTime)
      else sint ((86400 - startTime) + currentSecondsSinceMidnight))"

definition TrainInstance_getCurrentBlock :: "TrainInstance \<Rightarrow> 32 word \<Rightarrow> nat" where
  "TrainInstance_getCurrentBlock t currentSecondsSinceMidnight =
     TrainRoute_getCurrentBlock (route t)
       (elapsedSeconds (startTimeSeconds t) currentSecondsSinceMidnight)"

definition isVisible :: "TrainInstance \<Rightarrow> 32 word \<Rightarrow> bool" where
  "isVisible t currentSecondsSinceMidnight =
     (let entries = getEntries (route t) in
      if entries = [] then False
      else
        let firstOffset = sint (offsetSeconds (hd entries));
            lastOffset = sint (offsetSeconds (last entries));
            elapsed = elapsedSeconds (startTimeSeconds t) currentSecondsSinceMidnight
        in elapsed > firstOffset \<and> elapsed < lastOffset)"

definition createTrainsForRoute :: "TrainRoute \<Rightarrow> TrainInstance list" where
  "createTrainsForRoute r = map (\<lambda>startTime. \<lparr>route = r, startTimeSeconds = startTime\<rparr>) (getStartTimes r)"

text \<open>The two nested loops of \<open>drawTimetableMap\<close>.\<close>

fun drawTrains :: "TrainRoute \<Rightarrow> TrainInstance list \<Rightarrow> 32 word \<Rightarrow> Globals \<Rightarrow> Globals" where
  "drawTrains r [] second s = s"
| "drawTrains r (t # trains) second s =
     drawTrains r trains second
       (if isVisible t second
        then setBlockColorRGB (TrainInstance_getCurrentBlock t second) (getColor r) s
        else s)"

fun drawRoutes :: "TrainRoute list \<Rightarrow> 32 word \<Rightarrow> Globals \<Rightarrow> Globals" where
  "drawRoutes [] second s = s"
| "drawRoutes (r # routes) second s =
     drawRoutes routes second (drawTrains r (createTrainsForRoute r) second s)"

definition drawTimetableMap :: "32 word \<Rightarrow> TrainRoute list \<Rightarrow> Globals \<Rightarrow> Globals" where
  "drawTimetableMap second routes s = drawRoutes routes second (clearLEDs s)"

subsection \<open>The position of a train\<close>

text \<open>
  The specification's reading of the scan: the block of the last entry, in list order,
  whose offset is at most the elapsed time; the first entry's block when there is none.
\<close>

definition lastEntryBlock :: "TimetableEntry list \<Rightarrow> int \<Rightarrow> 16 word" where
  "lastEntryBlock entries elapsed =
     (let qualifying = filter (\<lambda>e. sint (offsetSeconds e) \<le> elapsed) entries in
      if qualifying = [] then blockNumber (hd entries) else blockNumber (last qualifying))"

lemma scanEntries_filter:
  assumes "n \<le> length entries"
  shows "scanEntries entries n elapsed =
           (let qualifying = filter (\<lambda>e. sint (offsetSeconds e) \<le> elapsed) (take n entries) in
            if qualifying = [] then None else Some (blockNumber (last qualifying)))"
  using assms
proof (induction n)
  case 0
  show ?case by simp
next
  case (Suc n)
  then have n: "n < length entries" by simp
  then have t: "take (Suc n) entries = take n entries @ [entries ! n]"
    by (rule take_Suc_conv_app_nth)
  show ?case
  proof (cases "sint (offsetSeconds (entries ! n)) \<le> elapsed")
    case True
    then show ?thesis by (simp add: t)
  next
    case False
    with Suc.IH n show ?thesis by (simp add: t)
  qed
qed

lemma TrainRoute_getCurrentBlock_last:
  assumes "getEntries r \<noteq> []"
  shows "TrainRoute_getCurrentBlock r elapsed = unat (lastEntryBlock (getEntries r) elapsed)"
proof -
  have "scanEntries (getEntries r) (length (getEntries r)) elapsed =
           (let qualifying = filter (\<lambda>e. sint (offsetSeconds e) \<le> elapsed) (getEntries r) in
            if qualifying = [] then None else Some (blockNumber (last qualifying)))"
    using scanEntries_filter [of "length (getEntries r)" "getEntries r" elapsed] by simp
  with assms show ?thesis
    by (simp add: TrainRoute_getCurrentBlock_def lastEntryBlock_def hd_conv_nth Let_def)
qed

subsection \<open>Elapsed time\<close>

text \<open>The value an integer has after a cast to \<open>int32_t\<close>.\<close>

definition int32 :: "int \<Rightarrow> int" where
  "int32 x = (x + 2 ^ 31) mod 2 ^ 32 - 2 ^ 31"

lemma int32_signed_take_bit: "int32 x = signed_take_bit 31 x"
  by (simp add: int32_def signed_take_bit_eq_take_bit_shift take_bit_eq_mod)

lemma int32_id: "- 2147483648 \<le> x \<Longrightarrow> x < 2147483648 \<Longrightarrow> int32 x = x"
  by (simp add: int32_def)

lemma sint_of_int32: "sint (word_of_int x :: 32 word) = int32 x"
  by (simp add: int32_signed_take_bit sint_sbintrunc')

lemma elapsed_after_start:
  assumes "startTime \<le> current" "uint current < 86400"
  shows "elapsedSeconds startTime current = uint current - uint startTime"
proof -
  from assms(1) have le: "uint startTime \<le> uint current" by (simp add: word_le_def)
  have "current - startTime = word_of_int (uint current - uint startTime)"
    by simp
  then have "sint (current - startTime) = int32 (uint current - uint startTime)"
    by (simp only: sint_of_int32)
  moreover have "int32 (uint current - uint startTime) = uint current - uint startTime"
  proof (rule int32_id)
    from le show "- 2147483648 \<le> uint current - uint startTime" by simp
    have "0 \<le> uint startTime" by simp
    with assms(2) show "uint current - uint startTime < 2147483648" by linarith
  qed
  ultimately show ?thesis using assms(1) by (simp add: elapsedSeconds_def)
qed

lemma elapsed_before_start:
  assumes "\<not> startTime \<le> current"
  shows "elapsedSeconds startTime current = int32 ((86400 - uint startTime) + uint current)"
proof -
  have "(86400 - startTime) + current = word_of_int ((86400 - uint startTime) + uint current)"
    by simp
  then have "sint ((86400 - startTime) + current) =
          int32 ((86400 - uint startTime) + uint current)"
    by (simp only: sint_of_int32)
  with assms show ?thesis by (simp add: elapsedSeconds_def)
qed

lemma elapsed_before_start_exact:
  assumes "\<not> startTime \<le> current" "uint current < 86400" "uint startTime \<le> 2147483648"
  shows "elapsedSeconds startTime current = (86400 - uint startTime) + uint current"
proof -
  from assms(1) have lt: "uint current < uint startTime" by (simp add: word_le_def not_le)
  have "int32 ((86400 - uint startTime) + uint current) =
      (86400 - uint startTime) + uint current"
  proof (rule int32_id)
    have "0 \<le> uint current" by simp
    with assms(3) show "- 2147483648 \<le> 86400 - uint startTime + uint current" by linarith
    from lt show "86400 - uint startTime + uint current < 2147483648" by simp
  qed
  with elapsed_before_start [OF assms(1)] show ?thesis by simp
qed

text \<open>The specification's elapsed time, over the integers.\<close>

definition elapsedFormula :: "int \<Rightarrow> int \<Rightarrow> int" where
  "elapsedFormula startTime current =
     (if current \<ge> startTime then current - startTime else (86400 - startTime) + current)"

lemma elapsedSeconds_formula:
  assumes "uint current < 86400" "uint startTime \<le> 2147570048 + uint current"
  shows "elapsedSeconds startTime current = elapsedFormula (uint startTime) (uint current)"
proof (cases "startTime \<le> current")
  case True
  then have "uint startTime \<le> uint current" by (simp add: word_le_def)
  with elapsed_after_start [OF True assms(1)] show ?thesis
    by (simp add: elapsedFormula_def)
next
  case False
  then have lt: "uint current < uint startTime" by (simp add: word_le_def not_le)
  have "int32 ((86400 - uint startTime) + uint current) =
      (86400 - uint startTime) + uint current"
  proof (rule int32_id)
    from assms(2) show "- 2147483648 \<le> 86400 - uint startTime + uint current" by linarith
    from lt show "86400 - uint startTime + uint current < 2147483648" by simp
  qed
  with elapsed_before_start [OF False] lt show ?thesis
    by (simp add: elapsedFormula_def)
qed

definition c4_route :: TrainRoute where
  "c4_route =
     \<lparr>getEntries =
        [\<lparr>offsetSeconds = - 30, blockNumber = 0\<rparr>,
         \<lparr>offsetSeconds = 0, blockNumber = 900\<rparr>,
         \<lparr>offsetSeconds = 120, blockNumber = 901\<rparr>],
      getColor = (0, 0, 255), getStartTimes = [0]\<rparr>"

text \<open>
  Claim C4. For every train with at least one entry, every clock value below 86400 and
  every start time (a time of day, so below 86400; the bound assumed is the weaker
  \<open>startTime \<le> 2\<^sup>3\<^sup>1 + 86400 + current\<close>, up to which the cast to \<open>int32_t\<close> keeps the
  value): the elapsed time is \<open>current - startTime\<close> when \<open>current \<ge> startTime\<close> and
  \<open>(86400 - startTime) + current\<close> otherwise; the train is visible exactly when the elapsed
  time lies strictly between the first and the last entry's offset; and its block is the
  block of the last entry whose offset is at most the elapsed time, the first entry's
  block when there is none.
\<close>

theorem train_elapsed_visibility_block:
  assumes "getEntries (route t) \<noteq> []"
    and "uint current < 86400"
    and "uint (startTimeSeconds t) \<le> 2147570048 + uint current"
  shows "elapsedSeconds (startTimeSeconds t) current =
           elapsedFormula (uint (startTimeSeconds t)) (uint current) \<and>
         isVisible t current =
           (sint (offsetSeconds (hd (getEntries (route t))))
              < elapsedFormula (uint (startTimeSeconds t)) (uint current) \<and>
            elapsedFormula (uint (startTimeSeconds t)) (uint current)
              < sint (offsetSeconds (last (getEntries (route t))))) \<and>
         TrainInstance_getCurrentBlock t current =
           unat (lastEntryBlock (getEntries (route t))
                   (elapsedFormula (uint (startTimeSeconds t)) (uint current)))"
proof -
  note e = elapsedSeconds_formula [OF assms(2,3)]
  have "isVisible t current =
           (sint (offsetSeconds (hd (getEntries (route t))))
              < elapsedFormula (uint (startTimeSeconds t)) (uint current) \<and>
            elapsedFormula (uint (startTimeSeconds t)) (uint current)
              < sint (offsetSeconds (last (getEntries (route t)))))"
    using assms(1) by (simp add: isVisible_def Let_def e)
  moreover have "TrainInstance_getCurrentBlock t current =
           unat (lastEntryBlock (getEntries (route t))
                   (elapsedFormula (uint (startTimeSeconds t)) (uint current)))"
    using assms(1) by (simp add: TrainInstance_getCurrentBlock_def TrainRoute_getCurrentBlock_last e)
  ultimately show ?thesis using e by simp
qed

lemma c4_values:
  "elapsedFormula 0 50 = 50"
  "lastEntryBlock (getEntries c4_route) 50 = 900"
  "sint (offsetSeconds (hd (getEntries c4_route))) = - 30"
  "sint (offsetSeconds (last (getEntries c4_route))) = 120"
  by (simp_all add: elapsedFormula_def lastEntryBlock_def c4_route_def)

lemma c4_wrap_values:
  "elapsedFormula 86000 100 = 500"
  "lastEntryBlock (getEntries c4_route) 500 = 901"
  by (simp_all add: elapsedFormula_def lastEntryBlock_def c4_route_def)

theorem train_elapsed_visibility_block_witness:
  "getEntries (route \<lparr>route = c4_route, startTimeSeconds = 0\<rparr>) \<noteq> [] \<and>
   uint (50 :: 32 word) < 86400 \<and>
   uint (startTimeSeconds \<lparr>route = c4_route, startTimeSeconds = 0\<rparr>)
     \<le> 2147570048 + uint (50 :: 32 word) \<and>
   elapsedSeconds 0 50 = 50 \<and>
   isVisible \<lparr>route = c4_route, startTimeSeconds = 0\<rparr> 50 \<and>
   TrainInstance_getCurrentBlock \<lparr>route = c4_route, startTimeSeconds = 0\<rparr> 50 = 900 \<and>
   getEntries (route \<lparr>route = c4_route, startTimeSeconds = 86000\<rparr>) \<noteq> [] \<and>
   uint (100 :: 32 word) < 86400 \<and>
   uint (startTimeSeconds \<lparr>route = c4_route, startTimeSeconds = 86000\<rparr>)
     \<le> 2147570048 + uint (100 :: 32 word) \<and>
   elapsedSeconds 86000 100 = 500 \<and>
   \<not> isVisible \<lparr>route = c4_route, startTimeSeconds = 86000\<rparr> 100 \<and>
   TrainInstance_getCurrentBlock \<lparr>route = c4_route, startTimeSeconds = 86000\<rparr> 100 = 901"
proof -
  have h1: "getEntries (route \<lparr>route = c4_route, startTimeSeconds = 0\<rparr>) \<noteq> []"
    by (simp add: c4_route_def)
  have h2: "uint (50 :: 32 word) < 86400" by simp
  have h3: "uint (startTimeSeconds \<lparr>route = c4_route, startTimeSeconds = 0\<rparr>)
     \<le> 2147570048 + uint (50 :: 32 word)" by simp
  have k1: "getEntries (route \<lparr>route = c4_route, startTimeSeconds = 86000\<rparr>) \<noteq> []"
    by (simp add: c4_route_def)
  have k2: "uint (100 :: 32 word) < 86400" by simp
  have k3: "uint (startTimeSeconds \<lparr>route = c4_route, startTimeSeconds = 86000\<rparr>)
     \<le> 2147570048 + uint (100 :: 32 word)" by simp
  from train_elapsed_visibility_block [OF h1 h2 h3] train_elapsed_visibility_block [OF k1 k2 k3]
    h1 h2 h3 k1 k2 k3
  show ?thesis
    by (simp add: c4_values c4_wrap_values)
qed

text \<open>
  Past that bound, which no time of day comes near, the cast wraps: at the largest
  \<open>uint32_t\<close> the unsigned sum is 86401 where the formula over the integers is negative.
\<close>

lemma elapsedSeconds_wraps_past_int32:
  "elapsedSeconds 4294967295 0 = 86401 \<and>
   elapsedFormula (uint (4294967295 :: 32 word)) (uint (0 :: 32 word)) = - 4294880895"
  by (simp add: elapsedSeconds_def elapsedFormula_def)

subsection \<open>Compositing the routes\<close>

text \<open>A route occupies a block when one of its trains is visible there.\<close>

definition occupies :: "32 word \<Rightarrow> nat \<Rightarrow> TrainRoute \<Rightarrow> bool" where
  "occupies second B r =
     list_ex (\<lambda>t. isVisible t second \<and> TrainInstance_getCurrentBlock t second = B)
       (createTrainsForRoute r)"

lemma blockPixel_drawTrains:
  "blockPixel (drawTrains r trains second s) B =
     (if list_ex (\<lambda>t. isVisible t second \<and> TrainInstance_getCurrentBlock t second = B) trains
         \<and> blockPixel s B \<noteq> None
      then Some (gammaRGB (getColor r)) else blockPixel s B)"
proof (induction trains arbitrary: s)
  case Nil
  show ?case by simp
next
  case (Cons t trains)
  show ?case
  proof (cases "isVisible t second")
    case False
    with Cons.IH [of s] show ?thesis by simp
  next
    case True
    define s1 where "s1 = setBlockColorRGB (TrainInstance_getCurrentBlock t second) (getColor r) s"
    have px: "blockPixel s1 B =
        (if B = TrainInstance_getCurrentBlock t second \<and> blockPixel s B \<noteq> None
         then Some (gammaRGB (getColor r)) else blockPixel s B)"
      by (simp add: s1_def blockPixel_setBlockColorRGB)
    from True have "drawTrains r (t # trains) second s = drawTrains r trains second s1"
      by (simp add: s1_def)
    with Cons.IH [of s1] px True show ?thesis by auto
  qed
qed

lemma blockPixel_drawRoutes:
  "blockPixel (drawRoutes routes second s) B =
     (let occupying = filter (occupies second B) routes in
      if occupying = [] \<or> blockPixel s B = None then blockPixel s B
      else Some (gammaRGB (getColor (last occupying))))"
proof (induction routes arbitrary: s)
  case Nil
  show ?case by simp
next
  case (Cons r routes)
  define s1 where "s1 = drawTrains r (createTrainsForRoute r) second s"
  have px: "blockPixel s1 B =
      (if occupies second B r \<and> blockPixel s B \<noteq> None
       then Some (gammaRGB (getColor r)) else blockPixel s B)"
    by (simp add: s1_def blockPixel_drawTrains occupies_def)
  have run: "drawRoutes (r # routes) second s = drawRoutes routes second s1"
    by (simp add: s1_def)
  show ?case
  proof (cases "filter (occupies second B) routes = []")
    case True
    with Cons.IH [of s1] px show ?thesis unfolding run by (simp add: Let_def)
  next
    case False
    with Cons.IH [of s1] px show ?thesis unfolding run by (simp add: Let_def)
  qed
qed

lemma empty_route_invisible:
  "getEntries (route t) = [] \<Longrightarrow> \<not> isVisible t current"
  by (simp add: isVisible_def)

lemma drawTrains_invisible:
  "list_all (\<lambda>t. \<not> isVisible t second) trains \<Longrightarrow> drawTrains r trains second s = s"
  by (induction trains arbitrary: s) simp_all

text \<open>
  Claim C7. After \<open>drawTimetableMap\<close>, a block that has a pixel shows the gamma-corrected
  colour of the last route, in iteration order, that has a visible train on the block,
  whatever earlier routes wrote there; it is black when no route has one.
\<close>

theorem timetable_last_route_wins:
  "blockPixel (drawTimetableMap second routes s) B =
     (if blockPixel s B = None then None
      else let occupying = filter (occupies second B) routes in
           if occupying = [] then Some black
           else Some (gammaRGB (getColor (last occupying))))"
  by (simp add: drawTimetableMap_def blockPixel_drawRoutes blockPixel_clearLEDs Let_def)

definition c7_route :: "CRGB \<Rightarrow> TrainRoute" where
  "c7_route c =
     \<lparr>getEntries =
        [\<lparr>offsetSeconds = - 30, blockNumber = 0\<rparr>,
         \<lparr>offsetSeconds = 0, blockNumber = 150\<rparr>,
         \<lparr>offsetSeconds = 120, blockNumber = 0\<rparr>],
      getColor = c, getStartTimes = [0]\<rparr>"

lemma c7_occupies: "occupies 50 150 (c7_route c)"
  by (simp add: occupies_def c7_route_def createTrainsForRoute_def isVisible_def
        TrainInstance_getCurrentBlock_def TrainRoute_getCurrentBlock_def elapsedSeconds_def Let_def)

theorem timetable_last_route_wins_witness:
  "blockPixel (drawTimetableMap 50 [c7_route (255, 0, 0), c7_route (0, 0, 255)] c3_state) 150
     = Some (0, 0, 255)"
proof -
  have "blockPixel c3_state 150 \<noteq> None" by (simp add: blockPixel_def c3_state_def)
  moreover have "gammaRGB (getColor (c7_route (0, 0, 255))) = (0, 0, 255)"
    by (simp add: c7_route_def gammaRGB_def gammaCorrect_def)
  ultimately show ?thesis
    using timetable_last_route_wins [of 50 "[c7_route (255, 0, 0), c7_route (0, 0, 255)]" c3_state 150]
    by (simp add: c7_occupies)
qed

text \<open>
  Claim C10. A route without entries has no visible train at any clock value, its
  current block is 0, and drawing it changes nothing: the frame is the one the other
  routes give.
\<close>

theorem empty_route_draws_nothing:
  assumes "getEntries r = []"
  shows "\<not> isVisible \<lparr>route = r, startTimeSeconds = startTime\<rparr> current \<and>
         TrainInstance_getCurrentBlock \<lparr>route = r, startTimeSeconds = startTime\<rparr> current = 0 \<and>
         TrainRoute_getCurrentBlock r elapsed = 0 \<and>
         drawTrains r (createTrainsForRoute r) current s = s \<and>
         drawTimetableMap current (r # routes) s = drawTimetableMap current routes s"
proof -
  from assms have inv: "list_all (\<lambda>t. \<not> isVisible t current) (createTrainsForRoute r)"
    by (simp add: createTrainsForRoute_def list_all_iff isVisible_def)
  then have "drawTrains r (createTrainsForRoute r) current s' = s'" for s'
    by (rule drawTrains_invisible)
  with assms show ?thesis
    by (simp add: isVisible_def TrainInstance_getCurrentBlock_def TrainRoute_getCurrentBlock_def
          drawTimetableMap_def)
qed

definition c10_route :: TrainRoute where
  "c10_route = \<lparr>getEntries = [], getColor = (255, 255, 255), getStartTimes = [0, 3600]\<rparr>"

theorem empty_route_draws_nothing_witness:
  "getEntries c10_route = [] \<and>
   \<not> isVisible \<lparr>route = c10_route, startTimeSeconds = 3600\<rparr> 4000 \<and>
   TrainInstance_getCurrentBlock \<lparr>route = c10_route, startTimeSeconds = 3600\<rparr> 4000 = 0 \<and>
   drawTrains c10_route (createTrainsForRoute c10_route) 4000 c3_state = c3_state"
proof -
  have h: "getEntries c10_route = []" by (simp add: c10_route_def)
  from empty_route_draws_nothing [OF h, of 3600 4000 0 c3_state "[]"] h show ?thesis by simp
qed

section \<open>Buttons (src/include/buttons.h)\<close>

text \<open>
  A button's line is \<open>HIGH\<close> (\<open>True\<close>) when idle and \<open>LOW\<close> (\<open>False\<close>) when pressed.
  Ticks are \<open>TickType_t\<close>, unsigned 32-bit, so the difference of two ticks is taken
  modulo \<open>2\<^sup>3\<^sup>2\<close>. A callback is named by a number.
\<close>

record ButtonEvent =
  ev_pin :: "8 word"

record Button =
  btn_pin :: "8 word"
  btn_callback :: nat
  btn_state :: bool
  fallingTick :: "32 word"
  risingTick :: "32 word"

definition HIGH :: bool where "HIGH = True"
definition LOW :: bool where "LOW = False"

text \<open>
  The queue holds at most 10 events (\<open>xQueueCreate(10, sizeof(ButtonEvent))\<close>);
  \<open>xQueueSendFromISR\<close> on a full queue drops the event.
\<close>

definition xQueueSendFromISR :: "ButtonEvent list \<Rightarrow> ButtonEvent \<Rightarrow> ButtonEvent list" where
  "xQueueSendFromISR queue event = (if length queue < 10 then queue @ [event] else queue)"

text \<open>
  \<open>isrWrapper\<close> in two steps: \<open>isrEdge\<close> is the handler up to the call of
  \<open>xQueueSendFromISR\<close>, and returns the event that the call is made with, if it is made;
  \<open>isrWrapper\<close> adds the call. \<open>now\<close> is \<open>xTaskGetTickCountFromISR()\<close> and \<open>newState\<close>
  is \<open>digitalRead(button->pin)\<close>.
\<close>

definition isrEdge :: "Board \<Rightarrow> 32 word \<Rightarrow> bool \<Rightarrow> Button \<Rightarrow> Button \<times> ButtonEvent option" where
  "isrEdge board now newState button =
     (if newState \<noteq> btn_state button then
        let button1 = button\<lparr>btn_state := newState\<rparr> in
        if newState = LOW then (button1\<lparr>fallingTick := now\<rparr>, None)
        else
          let button2 = button1\<lparr>risingTick := now\<rparr> in
          if risingTick button2 - fallingTick button2 > DEBOUNCE_TICKS board
          then (button2, Some \<lparr>ev_pin = btn_pin button2\<rparr>)
          else (button2, None)
      else (button, None))"

definition isrWrapper ::
  "Board \<Rightarrow> 32 word \<Rightarrow> bool \<Rightarrow> Button \<times> ButtonEvent list \<Rightarrow> Button \<times> ButtonEvent list" where
  "isrWrapper board now newState st =
     (case isrEdge board now newState (fst st) of
        (button', None) \<Rightarrow> (button', snd st)
      | (button', Some event) \<Rightarrow> (button', xQueueSendFromISR (snd st) event))"

text \<open>
  The manager: its buttons, the global queue handle (\<open>None\<close> for \<open>NULL\<close>), the
  interrupt handler attached to each pin (\<open>attachInterruptArg\<close> keeps one handler per pin,
  here the index of the button whose address it was given), whether the button task
  runs, and what the manager printed.
\<close>

datatype button_diag = FailedToCreateButtonQueue | ButtonNotFound "8 word"

record ButtonManager =
  buttons :: "Button list"
  buttonQueue :: "ButtonEvent list option"
  attachedInterrupts :: "8 word \<rightharpoonup> nat"
  buttonTaskCreated :: bool
  mgr_serial :: "button_diag list"

definition ButtonManager_add :: "8 word \<Rightarrow> nat \<Rightarrow> ButtonManager \<Rightarrow> ButtonManager" where
  "ButtonManager_add pin cb m =
     m\<lparr>buttons := buttons m @
        [\<lparr>btn_pin = pin, btn_callback = cb, btn_state = HIGH, fallingTick = 0, risingTick = 0\<rparr>]\<rparr>"

fun setCallbackIn :: "8 word \<Rightarrow> nat \<Rightarrow> Button list \<Rightarrow> Button list option" where
  "setCallbackIn pin cb [] = None"
| "setCallbackIn pin cb (btn # btns) =
     (if btn_pin btn = pin then Some (btn\<lparr>btn_callback := cb\<rparr> # btns)
      else map_option ((#) btn) (setCallbackIn pin cb btns))"

definition ButtonManager_setCallback :: "8 word \<Rightarrow> nat \<Rightarrow> ButtonManager \<Rightarrow> ButtonManager" where
  "ButtonManager_setCallback pin cb m =
     (case setCallbackIn pin cb (buttons m) of
        Some btns \<Rightarrow> m\<lparr>buttons := btns\<rparr>
      | None \<Rightarrow> m\<lparr>mgr_serial := mgr_serial m @ [ButtonNotFound pin]\<rparr>)"

text \<open>The loop of \<open>begin()\<close> over the buttons, from index \<open>i\<close> on.\<close>

fun attachAll :: "Button list \<Rightarrow> nat \<Rightarrow> (8 word \<rightharpoonup> nat) \<Rightarrow> (8 word \<rightharpoonup> nat)" where
  "attachAll [] i handlers = handlers"
| "attachAll (btn # btns) i handlers = attachAll btns (Suc i) (handlers(btn_pin btn \<mapsto> i))"

text \<open>
  \<open>begin()\<close> returns \<open>void\<close>. \<open>queueCreated\<close> tells whether \<open>xQueueCreate\<close> returned a
  queue; when it did not, the handle is \<open>NULL\<close>, the message is printed and the function
  returns.
\<close>

definition ButtonManager_begin :: "bool \<Rightarrow> ButtonManager \<Rightarrow> ButtonManager" where
  "ButtonManager_begin queueCreated m =
     (if \<not> queueCreated
      then m\<lparr>buttonQueue := None, mgr_serial := mgr_serial m @ [FailedToCreateButtonQueue]\<rparr>
      else m\<lparr>buttonQueue := Some [],
             attachedInterrupts := attachAll (buttons m) 0 (attachedInterrupts m),
             buttonTaskCreated := True\<rparr>)"

text \<open>
  An edge on the line of \<open>pin\<close> at tick \<open>now\<close>, the line reading \<open>level\<close>: without a
  handler on the pin nothing runs; with one, \<open>isrWrapper\<close> runs on its button and the
  queue. (A handler is attached only by a \<open>begin()\<close> that has created the queue; for a
  handler without a queue the model leaves the manager as it is.)
\<close>

definition interrupt :: "Board \<Rightarrow> 8 word \<Rightarrow> 32 word \<Rightarrow> bool \<Rightarrow> ButtonManager \<Rightarrow> ButtonManager" where
  "interrupt board pin now level m =
     (case attachedInterrupts m pin of
        None \<Rightarrow> m
      | Some i \<Rightarrow>
          (case buttonQueue m of
             None \<Rightarrow> m
           | Some queue \<Rightarrow>
               if i < length (buttons m)
               then (case isrWrapper board now level (buttons m ! i, queue) of
                       (button', queue') \<Rightarrow>
                         m\<lparr>buttons := (buttons m)[i := button'], buttonQueue := Some queue'\<rparr>)
               else m))"

subsection \<open>Debouncing\<close>




subsection \<open>Initialisation\<close>

definition c8_manager :: ButtonManager where
  "c8_manager =
     ButtonManager_add 9 2 (ButtonManager_add 8 1 (ButtonManager_add 7 0
       \<lparr>buttons = [], buttonQueue = None, attachedInterrupts = Map.empty,
        buttonTaskCreated = False, mgr_serial = []\<rparr>))"

text \<open>
  Claim C8, as amended. When the queue cannot be created, \<open>begin()\<close> prints "Failed to
  create button queue!" and returns: the queue handle is \<open>NULL\<close>, no interrupt handler is
  attached and no task is created that was not there before, so that an edge on a line
  without a handler changes nothing and delivers no event. \<open>begin()\<close> is \<open>void\<close>: the
  serial line is the only report of the failure.
\<close>

theorem channel_init_failure_only_logged:
  assumes "attachedInterrupts m pin = None"
  shows "ButtonManager_begin False m =
           m\<lparr>buttonQueue := None, mgr_serial := mgr_serial m @ [FailedToCreateButtonQueue]\<rparr> \<and>
         attachedInterrupts (ButtonManager_begin False m) = attachedInterrupts m \<and>
         buttonTaskCreated (ButtonManager_begin False m) = buttonTaskCreated m \<and>
         interrupt board pin now level (ButtonManager_begin False m) = ButtonManager_begin False m"
  using assms by (simp add: ButtonManager_begin_def interrupt_def)

theorem channel_init_failure_only_logged_witness:
  "attachedInterrupts c8_manager 7 = None \<and>
   ButtonManager_begin False c8_manager =
     c8_manager\<lparr>buttonQueue := None,
       mgr_serial := mgr_serial c8_manager @ [FailedToCreateButtonQueue]\<rparr> \<and>
   buttonTaskCreated (ButtonManager_begin False c8_manager) = buttonTaskCreated c8_manager \<and>
   interrupt c2_board 7 100 LOW (ButtonManager_begin False c8_manager)
     = ButtonManager_begin False c8_manager"
proof -
  have h: "attachedInterrupts c8_manager 7 = None"
    by (simp add: c8_manager_def ButtonManager_add_def)
  from channel_init_failure_only_logged [OF h, of c2_board 100 LOW] h show ?thesis
    by blast
qed

text \<open>
  The claim as stated fails: with three buttons registered and the queue not created,
  what \<open>begin()\<close> hands back to \<open>setup()\<close> is the manager as it was, with one more line
  on the serial port; a press of button 7 held for 100 ticks then delivers nothing. When
  the queue is created, the same press puts the button's event in the queue.
\<close>

theorem channel_init_failure_counterexample:
  "ButtonManager_begin False c8_manager = c8_manager\<lparr>mgr_serial := [FailedToCreateButtonQueue]\<rparr> \<and>
   interrupt c2_board 7 200 HIGH (interrupt c2_board 7 100 LOW (ButtonManager_begin False c8_manager))
     = ButtonManager_begin False c8_manager \<and>
   buttonQueue (interrupt c2_board 7 200 HIGH
      (interrupt c2_board 7 100 LOW (ButtonManager_begin True c8_manager)))
     = Some [\<lparr>ev_pin = 7\<rparr>]"
  by (simp add: ButtonManager_begin_def interrupt_def c8_manager_def ButtonManager_add_def
        isrWrapper_def isrEdge_def xQueueSendFromISR_def c2_board_def HIGH_def LOW_def)

end
